theory Spec2Isabelle
  imports Complex_Main
begin

section \<open>Numbers and errors\<close>

text \<open>
  The arrays of \<^verbatim>\<open>step_finder.py\<close> hold IEEE doubles. A double is modelled as a value
  of \<open>npfloat\<close>: a finite value is an exact real (rounding, overflow and the sign of
  zero are not modelled), and the three special values are kept, because the code relies
  on them: the filter initialises its arrays with NaN, a division by zero of numpy
  yields an infinity or NaN, and every comparison with NaN is false.
\<close>

datatype npfloat = Fin real | PInf | NInf | NaN

datatype error = IndexError | ValueError | ZeroDivisionError | OverflowError

fun isnan :: "npfloat \<Rightarrow> bool" where
  "isnan NaN = True"
| "isnan _ = False"

fun isfin :: "npfloat \<Rightarrow> bool" where
  "isfin (Fin _) = True"
| "isfin _ = False"

fun fneg :: "npfloat \<Rightarrow> npfloat" where
  "fneg (Fin a) = Fin (- a)"
| "fneg PInf = NInf"
| "fneg NInf = PInf"
| "fneg NaN = NaN"

fun fabs :: "npfloat \<Rightarrow> npfloat" where
  "fabs (Fin a) = Fin \<bar>a\<bar>"
| "fabs PInf = PInf"
| "fabs NInf = PInf"
| "fabs NaN = NaN"

fun fadd :: "npfloat \<Rightarrow> npfloat \<Rightarrow> npfloat" where
  "fadd (Fin a) (Fin b) = Fin (a + b)"
| "fadd NaN _ = NaN"
| "fadd _ NaN = NaN"
| "fadd PInf NInf = NaN"
| "fadd NInf PInf = NaN"
| "fadd PInf _ = PInf"
| "fadd NInf _ = NInf"
| "fadd _ PInf = PInf"
| "fadd _ NInf = NInf"

definition fsub :: "npfloat \<Rightarrow> npfloat \<Rightarrow> npfloat" where
  "fsub x y = fadd x (fneg y)"

text \<open>The sign of a value as a multiplier of an infinity: zero times infinity is NaN.\<close>

definition inf_times :: "bool \<Rightarrow> real \<Rightarrow> npfloat" where
  "inf_times positive a =
     (if a = 0 then NaN else if (0 < a) = positive then PInf else NInf)"

fun fmul :: "npfloat \<Rightarrow> npfloat \<Rightarrow> npfloat" where
  "fmul (Fin a) (Fin b) = Fin (a * b)"
| "fmul NaN _ = NaN"
| "fmul _ NaN = NaN"
| "fmul PInf (Fin b) = inf_times True b"
| "fmul NInf (Fin b) = inf_times False b"
| "fmul (Fin a) PInf = inf_times True a"
| "fmul (Fin a) NInf = inf_times False a"
| "fmul PInf PInf = PInf"
| "fmul NInf NInf = PInf"
| "fmul PInf NInf = NInf"
| "fmul NInf PInf = NInf"

text \<open>
  Division as numpy does it on doubles: no exception, \<open>x / 0\<close> is an infinity of the
  sign of \<open>x\<close> and \<open>0 / 0\<close> is NaN.
\<close>

fun fdiv :: "npfloat \<Rightarrow> npfloat \<Rightarrow> npfloat" where
  "fdiv (Fin a) (Fin b) =
     (if b = 0 then (if a = 0 then NaN else if 0 < a then PInf else NInf)
      else Fin (a / b))"
| "fdiv NaN _ = NaN"
| "fdiv _ NaN = NaN"
| "fdiv (Fin a) _ = Fin 0"
| "fdiv PInf (Fin b) = (if 0 \<le> b then PInf else NInf)"
| "fdiv NInf (Fin b) = (if 0 \<le> b then NInf else PInf)"
| "fdiv _ _ = NaN"

fun fsqrt :: "npfloat \<Rightarrow> npfloat" where
  "fsqrt (Fin a) = (if a < 0 then NaN else Fin (sqrt a))"
| "fsqrt PInf = PInf"
| "fsqrt _ = NaN"

text \<open>\<open>x < y\<close> on doubles: false as soon as one side is NaN.\<close>

fun flt :: "npfloat \<Rightarrow> npfloat \<Rightarrow> bool" where
  "flt (Fin a) (Fin b) = (a < b)"
| "flt NaN _ = False"
| "flt _ NaN = False"
| "flt NInf NInf = False"
| "flt NInf _ = True"
| "flt PInf _ = False"
| "flt _ PInf = True"
| "flt _ NInf = False"

primrec fsum :: "npfloat list \<Rightarrow> npfloat" where
  "fsum [] = Fin 0"
| "fsum (x # xs) = fadd x (fsum xs)"

text \<open>\<^verbatim>\<open>a.mean()\<close>, \<^verbatim>\<open>np.mean(a)\<close>: the mean of an empty array is NaN (a warning, no error).\<close>

definition fmean :: "npfloat list \<Rightarrow> npfloat" where
  "fmean xs = fdiv (fsum xs) (Fin (real (length xs)))"

text \<open>\<^verbatim>\<open>np.round\<close> rounds a half to the even neighbour.\<close>

definition np_round :: "real \<Rightarrow> int" where
  "np_round x =
     (let f = \<lfloor>x\<rfloor>; d = x - of_int f
      in if d < 1 / 2 then f else if 1 / 2 < d then f + 1
         else if even f then f else f + 1)"

text \<open>\<^verbatim>\<open>int(np.round(x))\<close>: Python refuses to convert NaN and the infinities.\<close>

fun int_of_round :: "npfloat \<Rightarrow> error + int" where
  "int_of_round (Fin a) = Inr (np_round a)"
| "int_of_round NaN = Inl ValueError"
| "int_of_round _ = Inl OverflowError"

text \<open>\<^verbatim>\<open>xs.pop(i)\<close> for an index in range.\<close>

definition pop :: "nat \<Rightarrow> 'a list \<Rightarrow> 'a list" where
  "pop i xs = take i xs @ drop (Suc i) xs"

section \<open>The resolved steps\<close>

text \<open>
  The named tuple \<^verbatim>\<open>Steps\<close>: parallel arrays over the steps \<open>0 .. number - 1\<close>, one
  plateau more than steps. A row of the two-column arrays \<^verbatim>\<open>bounds\<close> and
  \<^verbatim>\<open>plateaus\<close> is a pair \<open>(start, stop)\<close>.
\<close>

record Steps =
  indices :: "int list"
  direction :: "bool list"
  bounds :: "(int \<times> int) list"
  number :: nat
  plateaus :: "(int \<times> int) list"
  p_centers :: "int list"
  step_sizes :: "npfloat list"
  plateau_heights :: "npfloat list"
  dwell_points :: "int list"

section \<open>The step pruner: \<^verbatim>\<open>delete_small_steps\<close>\<close>

text \<open>
  The function copies the arrays of its argument into Python lists and splices them in
  place. The working copy is the \<open>Steps\<close> record itself, extended by the list
  \<^verbatim>\<open>minsizes\<close> and the loop counter \<^verbatim>\<open>i\<close> (here \<open>cursor\<close>); the local
  \<^verbatim>\<open>step_bounds\<close> is the field \<open>bounds\<close>, \<^verbatim>\<open>num_steps\<close> is \<open>number\<close> and
  \<^verbatim>\<open>p_heights\<close> is \<open>plateau_heights\<close>. An index past the end of a list raises
  IndexError, and the division of the new plateau height is Python's division of
  floats, which raises ZeroDivisionError.
\<close>

record pstate = Steps +
  minsizes :: "npfloat list"
  cursor :: nat

text \<open>The test of line 748: \<^verbatim>\<open>np.abs(step_sizes[i]) < minsizes[i]\<close>.\<close>

definition below :: "pstate \<Rightarrow> error + bool" where
  "below st =
     (let i = cursor st
      in if i < length (step_sizes st) \<and> i < length (minsizes st)
         then Inr (flt (fabs (step_sizes st ! i)) (minsizes st ! i))
         else Inl IndexError)"

text \<open>
  The new dwell points (lines 786 to 795), for step \<open>i\<close> of \<open>num_steps\<close> steps.
\<close>

definition fuse_dwell :: "nat \<Rightarrow> nat \<Rightarrow> int list \<Rightarrow> error + int list" where
  "fuse_dwell i num_steps dwell =
     (if 1 \<le> i \<and> i < num_steps - 1 \<and> \<not> i < length dwell then Inl IndexError
      else
        let dwell1 = (if 1 \<le> i \<and> i < num_steps - 1
                      then dwell[i - 1 := dwell ! (i - 1) + dwell ! i] else dwell)
        in if i < num_steps - 1
           then (if i < length dwell1 then Inr (pop i dwell1) else Inl IndexError)
           else if 2 \<le> num_steps
           then (if dwell1 = [] then Inl IndexError else Inr (butlast dwell1))
           else Inr dwell1)"

text \<open>
  The body of the \<^verbatim>\<open>if\<close> (lines 749 to 808) followed by the \<^verbatim>\<open>i += 1\<close> that ends
  the iteration: step \<open>i\<close> is removed and plateaus \<open>i\<close> and \<open>i + 1\<close> become one.
\<close>

definition delete_step :: "pstate \<Rightarrow> error + pstate" where
  "delete_step st =
     (let i = cursor st; num_steps = number st;
          pl = plateaus st; ph = plateau_heights st
      in if \<not> (i + 1 < length pl \<and> i + 1 < length ph) then Inl IndexError
         else
           let p_start_new = fst (pl ! i);
               p_stop_new = snd (pl ! (i + 1));
               p_center_new =
                 np_round (of_int p_start_new + of_int (p_stop_new - p_start_new) / 2);
               p_height_l = ph ! i;
               p_height_r = ph ! (i + 1);
               l = snd (pl ! i) - fst (pl ! i);
               r = snd (pl ! (i + 1)) - fst (pl ! (i + 1))
           in if l + r = 0 then Inl ZeroDivisionError
              else
                let p_height_new =
                      fdiv (fadd (fmul p_height_l (Fin (of_int l)))
                                 (fmul p_height_r (Fin (of_int r))))
                           (Fin (of_int (l + r)));
                    plateaus1 = pop i (pl[i + 1 := (p_start_new, p_stop_new)]);
                    p_heights1 = pop i (ph[i + 1 := p_height_new]);
                    sizes0 = step_sizes st;
                    sizes1 = (if 1 \<le> i
                              then sizes0[i - 1 := fsub p_height_new (p_heights1 ! (i - 1))]
                              else sizes0)
                in if \<not> i + 1 < length (p_centers st) then Inl IndexError
                   else if i < num_steps - 1 \<and>
                           \<not> (i + 1 < length p_heights1 \<and> i + 1 < length sizes1)
                   then Inl IndexError
                   else if \<not> i < length sizes1 then Inl IndexError
                   else
                     let sizes2 = (if i < num_steps - 1
                                   then sizes1[i + 1 := fsub (p_heights1 ! (i + 1)) p_height_new]
                                   else sizes1)
                     in case fuse_dwell i num_steps (dwell_points st) of
                          Inl e \<Rightarrow> Inl e
                        | Inr dwell1 \<Rightarrow>
                            if \<not> (i < length (indices st) \<and> i < length (direction st) \<and>
                                  i < length (bounds st) \<and> i < length (minsizes st))
                            then Inl IndexError
                            else Inr (st\<lparr>indices := pop i (indices st),
                                         direction := pop i (direction st),
                                         bounds := pop i (bounds st),
                                         number := num_steps - 1,
                                         plateaus := plateaus1,
                                         p_centers := pop i ((p_centers st)[i + 1 := p_center_new]),
                                         step_sizes := pop i sizes2,
                                         plateau_heights := p_heights1,
                                         dwell_points := dwell1,
                                         minsizes := pop i (minsizes st),
                                         cursor := nat (max (int i - 2) (- 1) + 1)\<rparr>))"

text \<open>The loop of lines 746 to 809, from the working copy it is entered with.\<close>

function delete_loop :: "pstate \<Rightarrow> error + pstate" where
  "delete_loop st =
     (if cursor st < number st
      then (case below st of
              Inl e \<Rightarrow> Inl e
            | Inr small \<Rightarrow>
                if small
                then (case delete_step st of
                        Inl e \<Rightarrow> Inl e
                      | Inr st' \<Rightarrow> delete_loop st')
                else delete_loop (st\<lparr>cursor := cursor st + 1\<rparr>))
      else Inr st)"
  by pat_completeness auto

lemma delete_step_number:
  "delete_step st = Inr st' \<Longrightarrow> number st' = number st - 1"
  by (auto simp: delete_step_def Let_def split: if_splits sum.splits)

lemma delete_step_cursor:
  "delete_step st = Inr st' \<Longrightarrow> cursor st' = cursor st - 1"
  by (auto simp: delete_step_def Let_def split: if_splits sum.splits)

termination delete_loop
proof (relation "measure (\<lambda>st. 2 * number st - cursor st)")
  show "wf (measure (\<lambda>st. 2 * number st - cursor st))" by simp
next
  fix st :: pstate and x2 st'
  assume "cursor st < number st" and "delete_step st = Inr st'"
  then show "(st', st) \<in> measure (\<lambda>st. 2 * number st - cursor st)"
    using delete_step_number[of st st'] delete_step_cursor[of st st'] by simp
next
  fix st :: pstate
  assume "cursor st < number st"
  then show "(st\<lparr>cursor := cursor st + 1\<rparr>, st) \<in> measure (\<lambda>st. 2 * number st - cursor st)"
    by simp
qed

declare delete_loop.simps [simp del]

text \<open>
  The loop as the function runs it (lines 731 to 809): the final working copy, which
  still holds the thresholds of the steps that are left.
\<close>

definition delete_run :: "Steps \<Rightarrow> npfloat list \<Rightarrow> error + pstate" where
  "delete_run steps min_step_sizes =
     delete_loop (Steps.extend steps (pstate.fields min_step_sizes 0))"

text \<open>The value returned (lines 811 to 822): the lists, and \<^verbatim>\<open>number = len(indices)\<close>.\<close>

definition steps_of :: "pstate \<Rightarrow> Steps" where
  "steps_of st = (Steps.truncate st)\<lparr>number := length (indices st)\<rparr>"

definition delete_small_steps :: "Steps \<Rightarrow> npfloat list \<Rightarrow> error + Steps" where
  "delete_small_steps steps min_step_sizes =
     (case delete_run steps min_step_sizes of
        Inl e \<Rightarrow> Inl e
      | Inr st \<Rightarrow> Inr (steps_of st))"

subsection \<open>What the loop has checked\<close>

text \<open>
  Steps \<open>0 .. k - 1\<close> of the working copy have been compared with their thresholds and
  are not below them.
\<close>

definition checked :: "pstate \<Rightarrow> nat \<Rightarrow> bool" where
  "checked st k = (\<forall>j<k. j < length (step_sizes st) \<and> j < length (minsizes st) \<and>
       \<not> flt (fabs (step_sizes st ! j)) (minsizes st ! j))"

lemma nth_pop: "(pop i xs) ! j = (if j < i then xs ! j else xs ! Suc j)" if "i < length xs"
  using that by (auto simp: pop_def nth_append min_def)

lemma length_pop: "i < length xs \<Longrightarrow> length (pop i xs) = length xs - 1"
  by (auto simp: pop_def)

lemma delete_step_minsizes:
  "delete_step st = Inr st' \<Longrightarrow>
     cursor st < length (minsizes st) \<and> minsizes st' = pop (cursor st) (minsizes st)"
  by (auto simp: delete_step_def Let_def split: if_splits sum.splits)

lemma delete_step_sizes_length:
  "delete_step st = Inr st' \<Longrightarrow>
     cursor st < length (step_sizes st) \<and> length (step_sizes st') = length (step_sizes st) - 1"
  by (auto simp: delete_step_def Let_def length_pop split: if_splits sum.splits)

lemma delete_step_sizes_before:
  "delete_step st = Inr st' \<Longrightarrow> Suc j < cursor st \<Longrightarrow> step_sizes st' ! j = step_sizes st ! j"
  by (auto simp: delete_step_def Let_def length_pop nth_pop split: if_splits sum.splits)

lemma delete_step_checked:
  assumes d: "delete_step st = Inr st'" and c: "checked st (cursor st)"
  shows "checked st' (cursor st')"
  unfolding checked_def
proof (intro allI impI)
  fix j assume "j < cursor st'"
  then have j: "Suc j < cursor st" using delete_step_cursor[OF d] by simp
  then have old: "j < length (step_sizes st)" "j < length (minsizes st)"
      "\<not> flt (fabs (step_sizes st ! j)) (minsizes st ! j)"
    using c by (auto simp: checked_def)
  have "step_sizes st' ! j = step_sizes st ! j" using d j by (rule delete_step_sizes_before)
  moreover have "minsizes st' ! j = minsizes st ! j"
    using delete_step_minsizes[OF d] j by (simp add: nth_pop)
  moreover have "j < length (step_sizes st')" using delete_step_sizes_length[OF d] j by linarith
  moreover have "j < length (minsizes st')" using delete_step_minsizes[OF d] j by (auto simp: length_pop)
  ultimately show "j < length (step_sizes st') \<and> j < length (minsizes st') \<and>
       \<not> flt (fabs (step_sizes st' ! j)) (minsizes st' ! j)" using old by simp
qed

lemma below_False_checked:
  assumes "below st = Inr False" "checked st (cursor st)"
  shows "checked (st\<lparr>cursor := cursor st + 1\<rparr>) (cursor st + 1)"
  using assms by (auto simp: below_def checked_def Let_def less_Suc_eq split: if_splits)

lemma delete_loop_checked:
  "checked st (cursor st) \<Longrightarrow> cursor st \<le> number st \<Longrightarrow> delete_loop st = Inr st'
   \<Longrightarrow> checked st' (number st') \<and> cursor st' = number st'"
proof (induction st rule: delete_loop.induct)
  case (1 st)
  show ?case
  proof (cases "cursor st < number st")
    case False
    with "1.prems" show ?thesis by (simp add: delete_loop.simps[of st])
  next
    case True
    note lt = this
    from "1.prems"(3) lt obtain small where b: "below st = Inr small"
      by (auto simp: delete_loop.simps[of st] split: sum.splits)
    show ?thesis
    proof (cases small)
      case True
      with "1.prems"(3) lt b obtain st1 where d: "delete_step st = Inr st1" and r: "delete_loop st1 = Inr st'"
        by (auto simp: delete_loop.simps[of st] split: sum.splits)
      have "checked st1 (cursor st1)" using d "1.prems"(1) by (rule delete_step_checked)
      moreover have "cursor st1 \<le> number st1"
        using delete_step_number[OF d] delete_step_cursor[OF d] lt by simp
      ultimately show ?thesis using "1.IH"(1)[OF lt b True d] r by simp
    next
      case False
      with "1.prems"(3) lt b have r: "delete_loop (st\<lparr>cursor := cursor st + 1\<rparr>) = Inr st'"
        by (auto simp: delete_loop.simps[of st] split: sum.splits)
      have "checked (st\<lparr>cursor := cursor st + 1\<rparr>) (cursor st + 1)"
        using b False "1.prems"(1) below_False_checked by simp
      then show ?thesis using "1.IH"(2)[OF lt b False] r lt by simp
    qed
  qed
qed

lemma delete_loop_noop:
  "checked st (number st) \<Longrightarrow> cursor st \<le> number st \<Longrightarrow>
   delete_loop st = Inr (st\<lparr>cursor := number st\<rparr>)"
proof (induction st rule: delete_loop.induct)
  case (1 st)
  show ?case
  proof (cases "cursor st < number st")
    case False
    with "1.prems" show ?thesis by (simp add: delete_loop.simps[of st])
  next
    case True
    have b: "below st = Inr False"
      using True "1.prems"(1) by (auto simp: below_def checked_def Let_def)
    have "checked (st\<lparr>cursor := cursor st + 1\<rparr>) (number (st\<lparr>cursor := cursor st + 1\<rparr>))"
      using "1.prems"(1) by (simp add: checked_def)
    then have "delete_loop (st\<lparr>cursor := cursor st + 1\<rparr>) = Inr (st\<lparr>cursor := number st\<rparr>)"
      using "1.IH"(2)[OF True b] True by simp
    then show ?thesis using True b by (simp add: delete_loop.simps[of st])
  qed
qed

subsection \<open>One removal\<close>

text \<open>
  The invariant of the working copy: as many indices, directions, bounds, thresholds and
  step sizes as steps, one plateau (bounds, centre, height) more, one dwell less.
\<close>

definition consistent :: "pstate \<Rightarrow> bool" where
  "consistent st =
     (let n = number st
      in length (indices st) = n \<and> length (direction st) = n \<and> length (bounds st) = n \<and>
         length (minsizes st) = n \<and> length (step_sizes st) = n \<and>
         length (plateaus st) = n + 1 \<and> length (p_centers st) = n + 1 \<and>
         length (plateau_heights st) = n + 1 \<and> length (dwell_points st) = n - 1)"

text \<open>The length \<^verbatim>\<open>l\<close> or \<^verbatim>\<open>r\<close> of a plateau (lines 759 and 760).\<close>

definition plateau_length :: "(int \<times> int) list \<Rightarrow> nat \<Rightarrow> int" where
  "plateau_length pl i = snd (pl ! i) - fst (pl ! i)"

text \<open>The value \<^verbatim>\<open>p_height_new\<close> of line 761.\<close>

definition fused_height :: "pstate \<Rightarrow> npfloat" where
  "fused_height st =
     (let i = cursor st; pl = plateaus st; ph = plateau_heights st;
          l = plateau_length pl i; r = plateau_length pl (i + 1)
      in fdiv (fadd (fmul (ph ! i) (Fin (of_int l))) (fmul (ph ! (i + 1)) (Fin (of_int r))))
              (Fin (of_int (l + r))))"

lemma pop_update_Suc:
  "Suc i < length xs \<Longrightarrow> pop i (xs[Suc i := x]) = take i xs @ x # drop (Suc (Suc i)) xs"
  by (simp add: pop_def upd_conv_take_nth_drop drop_Suc)

lemma fuse_dwell_ok:
  assumes "i < n" "length d = n - 1"
  shows "fuse_dwell i n d = Inr (if 1 \<le> i \<and> i < n - 1 then take (i - 1) d @ (d ! (i - 1) + d ! i) # drop (i + 1) d
                           else if i < n - 1 then tl d
                           else butlast d)"
proof (cases i)
  case 0
  then show ?thesis using assms
    by (cases d) (auto simp: fuse_dwell_def Let_def pop_def)
next
  case (Suc k)
  show ?thesis
  proof (cases "i < n - 1")
    case True
    then have "take (Suc k) (d[k := d ! k + d ! Suc k]) = take k d @ [d ! k + d ! Suc k]"
      using assms Suc by (simp add: upd_conv_take_nth_drop)
    then show ?thesis using True assms Suc
      by (simp add: fuse_dwell_def Let_def pop_def)
  next
    case False
    then show ?thesis using assms Suc
      by (auto simp: fuse_dwell_def Let_def)
  qed
qed


lemma delete_step_succeeds:
  assumes c: "consistent st" and lt: "cursor st < number st"
    and ne: "plateau_length (plateaus st) (cursor st) + plateau_length (plateaus st) (cursor st + 1) \<noteq> 0"
  shows "\<exists>st'. delete_step st = Inr st'"
proof -
  have len: "length (indices st) = number st" "length (direction st) = number st"
    "length (bounds st) = number st" "length (minsizes st) = number st"
    "length (step_sizes st) = number st" "length (plateaus st) = Suc (number st)"
    "length (p_centers st) = Suc (number st)" "length (plateau_heights st) = Suc (number st)"
    "length (dwell_points st) = number st - 1"
    using c by (simp_all add: consistent_def Let_def)
  have a: "cursor st < number st - Suc 0 \<longrightarrow> Suc (cursor st) < number st" by auto
  show ?thesis
    using lt ne len a
    unfolding delete_step_def Let_def plateau_length_def
    by (simp add: length_pop fuse_dwell_ok[OF lt len(9)])
qed

lemma delete_step_plateaus:
  "delete_step st = Inr st' \<Longrightarrow>
     plateaus st' = take (cursor st) (plateaus st) @
                (fst (plateaus st ! cursor st), snd (plateaus st ! (cursor st + 1))) #
                drop (cursor st + 2) (plateaus st)"
  by (auto simp: delete_step_def Let_def pop_update_Suc split: if_splits sum.splits)

lemma delete_step_heights:
  "delete_step st = Inr st' \<Longrightarrow>
     plateau_heights st' = take (cursor st) (plateau_heights st) @ fused_height st #
                drop (cursor st + 2) (plateau_heights st)"
  by (auto simp: delete_step_def Let_def pop_update_Suc fused_height_def plateau_length_def split: if_splits sum.splits)

lemma delete_step_centers:
  "delete_step st = Inr st' \<Longrightarrow>
     p_centers st' = take (cursor st) (p_centers st) @
                np_round (of_int (fst (plateaus st ! cursor st)) +
                          of_int (snd (plateaus st ! (cursor st + 1)) - fst (plateaus st ! cursor st)) / 2) #
                drop (cursor st + 2) (p_centers st)"
  by (auto simp: delete_step_def Let_def pop_update_Suc split: if_splits sum.splits)

lemma delete_step_dwell:
  "delete_step st = Inr st' \<Longrightarrow>
     fuse_dwell (cursor st) (number st) (dwell_points st) = Inr (dwell_points st')"
  by (auto simp: delete_step_def Let_def split: if_splits sum.splits)

lemma delete_step_removed:
  "delete_step st = Inr st' \<Longrightarrow>
     indices st' = pop (cursor st) (indices st) \<and> direction st' = pop (cursor st) (direction st) \<and>
     bounds st' = pop (cursor st) (bounds st) \<and> cursor st < length (indices st) \<and>
     cursor st < length (direction st) \<and> cursor st < length (bounds st)"
  by (auto simp: delete_step_def Let_def split: if_splits sum.splits)

lemma delete_step_size_left:
  "delete_step st = Inr st' \<Longrightarrow> 1 \<le> cursor st \<Longrightarrow>
     step_sizes st' ! (cursor st - 1) =
       fsub (fused_height st) (plateau_heights st ! (cursor st - 1))"
  by (auto simp: delete_step_def Let_def length_pop nth_pop fused_height_def plateau_length_def
        split: if_splits sum.splits)

lemma delete_step_size_right:
  "delete_step st = Inr st' \<Longrightarrow> cursor st < number st - 1 \<Longrightarrow>
     step_sizes st' ! cursor st =
       fsub (plateau_heights st ! (cursor st + 2)) (fused_height st)"
  by (auto simp: delete_step_def Let_def length_pop nth_pop fused_height_def plateau_length_def
        split: if_splits sum.splits)

lemma delete_step_sizes_after:
  "delete_step st = Inr st' \<Longrightarrow> cursor st < j \<Longrightarrow>
     step_sizes st' ! j = step_sizes st ! (j + 1)"
  by (auto simp: delete_step_def Let_def length_pop nth_pop split: if_splits sum.splits)

lemma delete_loop_number:
  "number st = length (indices st) \<Longrightarrow> delete_loop st = Inr st' \<Longrightarrow>
   number st' = length (indices st')"
proof (induction st rule: delete_loop.induct)
  case (1 st)
  show ?case
  proof (cases "cursor st < number st")
    case False
    with "1.prems" show ?thesis by (simp add: delete_loop.simps[of st])
  next
    case True
    note lt = this
    from "1.prems"(2) lt obtain small where b: "below st = Inr small"
      by (auto simp: delete_loop.simps[of st] split: sum.splits)
    show ?thesis
    proof (cases small)
      case True
      with "1.prems"(2) lt b obtain st1 where d: "delete_step st = Inr st1"
          and r: "delete_loop st1 = Inr st'"
        by (auto simp: delete_loop.simps[of st] split: sum.splits)
      have "number st1 = length (indices st1)"
        using delete_step_number[OF d] delete_step_removed[OF d] "1.prems"(1)
        by (simp add: length_pop)
      then show ?thesis using "1.IH"(1)[OF lt b True d] r by simp
    next
      case False
      with "1.prems"(2) lt b have r: "delete_loop (st\<lparr>cursor := cursor st + 1\<rparr>) = Inr st'"
        by (auto simp: delete_loop.simps[of st] split: sum.splits)
      then show ?thesis using "1.IH"(2)[OF lt b False] "1.prems"(1) by simp
    qed
  qed
qed

lemma extend_steps_of:
  "number st = length (indices st) \<Longrightarrow>
   Steps.extend (steps_of st) (pstate.fields (minsizes st) 0) = st\<lparr>cursor := 0\<rparr>"
  by (cases st) (simp add: steps_of_def Steps.extend_def Steps.truncate_def pstate.fields_def)

lemma steps_of_cursor: "steps_of (st\<lparr>cursor := k\<rparr>) = steps_of st"
  by (simp add: steps_of_def Steps.truncate_def)

subsection \<open>Pruning twice\<close>

text \<open>
  Claim C8. The pruner is idempotent. Let \<open>steps\<close> be a \<open>Steps\<close> value with
  \<open>number = len(indices)\<close> on which \<^verbatim>\<open>delete_small_steps\<close> returns, and let \<open>st\<close> be
  the working copy the loop ends with, so that \<open>minsizes st\<close> are the thresholds of the
  steps that are left. Then running \<^verbatim>\<open>delete_small_steps\<close> on the returned value with
  these thresholds returns the same value again: no step is removed and every array
  is the same.
\<close>

theorem delete_small_steps_idempotent:
  assumes n: "number steps = length (indices steps)"
    and run: "delete_run steps min_step_sizes = Inr st"
  shows "delete_small_steps steps min_step_sizes = Inr (steps_of st) \<and>
         delete_small_steps (steps_of st) (minsizes st) = Inr (steps_of st) \<and>
         number (steps_of st) = number st"
proof -
  let ?st0 = "Steps.extend steps (pstate.fields min_step_sizes 0)"
  have l: "delete_loop ?st0 = Inr st" using run by (simp add: delete_run_def)
  have c0: "checked ?st0 (cursor ?st0)"
    by (simp add: checked_def Steps.extend_def pstate.fields_def)
  have "cursor ?st0 \<le> number ?st0" by (simp add: Steps.extend_def pstate.fields_def)
  with c0 l have fin: "checked st (number st)" "cursor st = number st"
    using delete_loop_checked by blast+
  have "number ?st0 = length (indices ?st0)" using n by (simp add: Steps.extend_def)
  then have ni: "number st = length (indices st)" using l by (rule delete_loop_number)
  have "checked (st\<lparr>cursor := 0\<rparr>) (number (st\<lparr>cursor := 0\<rparr>))"
    using fin(1) by (simp add: checked_def)
  then have "delete_loop (st\<lparr>cursor := 0\<rparr>) = Inr (st\<lparr>cursor := 0\<rparr>\<lparr>cursor := number (st\<lparr>cursor := 0\<rparr>)\<rparr>)"
    by (rule delete_loop_noop) simp
  then have "delete_run (steps_of st) (minsizes st) = Inr (st\<lparr>cursor := number st\<rparr>)"
    using ni by (simp add: delete_run_def extend_steps_of)
  then have "delete_small_steps (steps_of st) (minsizes st) = Inr (steps_of st)"
    by (simp add: delete_small_steps_def steps_of_cursor)
  moreover have "delete_small_steps steps min_step_sizes = Inr (steps_of st)"
    using run by (simp add: delete_small_steps_def)
  moreover have "number (steps_of st) = number st" using ni by (simp add: steps_of_def)
  ultimately show ?thesis by simp
qed

text \<open>
  An example: 40 samples with steps found at 10, 20 and 30; the middle step has size
  \<open>1/2\<close>, below a threshold of 1.
\<close>

definition example_steps :: Steps where
  "example_steps = \<lparr>indices = [10, 20, 30], direction = [True, True, True],
             bounds = [(9, 12), (19, 22), (29, 32)], number = 3,
             plateaus = [(0, 10), (10, 20), (20, 30), (30, 40)],
             p_centers = [5, 15, 25, 35],
             step_sizes = [Fin 5, Fin (1/2), Fin (9/2)],
             plateau_heights = [Fin 0, Fin 5, Fin (11/2), Fin 10],
             dwell_points = [10, 10]\<rparr>"


lemma example_run: "delete_run example_steps [Fin 1, Fin 1, Fin 1] = Inr \<lparr>indices = [10, 30], direction = [True, True],
        bounds = [(9, 12), (29, 32)], number = 2,
        plateaus = [(0, 10), (10, 30), (30, 40)], p_centers = [5, 20, 35],
        step_sizes = [Fin (21 / 4), Fin (19 / 4)],
        plateau_heights = [Fin 0, Fin (21 / 4), Fin 10],
        dwell_points = [20], minsizes = [Fin 1, Fin 1], cursor = 2\<rparr>"
  by (simp add: example_steps_def delete_run_def Steps.extend_def pstate.fields_def delete_loop.simps below_def delete_step_def fuse_dwell_def pop_def Let_def np_round_def fsub_def)

lemma fused_height_average:
  assumes "plateau_heights st ! cursor st = Fin a" "plateau_heights st ! (cursor st + 1) = Fin b"
    and "plateau_length (plateaus st) (cursor st) + plateau_length (plateaus st) (cursor st + 1) \<noteq> 0"
  shows "fused_height st =
     Fin ((a * of_int (plateau_length (plateaus st) (cursor st)) +
           b * of_int (plateau_length (plateaus st) (cursor st + 1))) /
          of_int (plateau_length (plateaus st) (cursor st) +
                  plateau_length (plateaus st) (cursor st + 1)))"
proof -
  have "real_of_int (plateau_length (plateaus st) (cursor st)) +
        real_of_int (plateau_length (plateaus st) (Suc (cursor st))) \<noteq> 0"
    using assms(3) by (metis Suc_eq_plus1 of_int_add of_int_eq_0_iff)
  then show ?thesis using assms(1,2) by (simp add: fused_height_def Let_def)
qed

lemma delete_step_consistent:
  assumes c: "consistent st" and d: "delete_step st = Inr st'" and lt: "cursor st < number st"
  shows "consistent st'"
proof -
  have len: "length (indices st) = number st" "length (direction st) = number st"
    "length (bounds st) = number st" "length (minsizes st) = number st"
    "length (step_sizes st) = number st" "length (plateaus st) = Suc (number st)"
    "length (p_centers st) = Suc (number st)" "length (plateau_heights st) = Suc (number st)"
    "length (dwell_points st) = number st - 1"
    using c by (simp_all add: consistent_def Let_def)
  have "dwell_points st' =
      (if 1 \<le> cursor st \<and> cursor st < number st - 1
       then take (cursor st - 1) (dwell_points st) @
            (dwell_points st ! (cursor st - 1) + dwell_points st ! cursor st) #
            drop (cursor st + 1) (dwell_points st)
       else if cursor st < number st - 1 then tl (dwell_points st)
       else butlast (dwell_points st))"
    using delete_step_dwell[OF d] fuse_dwell_ok[OF lt len(9)] by simp
  then have dw: "length (dwell_points st') = number st - 1 - 1"
    using lt len(9) by auto
  show ?thesis
    unfolding consistent_def Let_def
    using delete_step_number[OF d] delete_step_removed[OF d] delete_step_minsizes[OF d]
      delete_step_sizes_length[OF d] delete_step_plateaus[OF d] delete_step_heights[OF d]
      delete_step_centers[OF d] dw len lt
    by (simp add: length_pop) 
qed

text \<open>
  Claim C3. Let the working copy be consistent, the cursor \<open>i\<close> be on a step
  (\<open>i < num_steps\<close>) whose size is below its threshold, and plateaus \<open>i\<close> and \<open>i + 1\<close>
  not both be empty. Then the body of the loop raises nothing, and the loop goes on from a
  working copy \<open>st'\<close> that is consistent again and in which: step \<open>i\<close> is gone from
  the indices, directions, bounds and thresholds; plateaus \<open>i\<close> and \<open>i + 1\<close> are one
  plateau from the start of the first to the stop of the second, whose height is
  \<^verbatim>\<open>p_height_new\<close>, the average of the two heights weighted by the plateau lengths;
  the step size on the left (when \<open>1 \<le> i\<close>) and on the right (when \<open>i < num_steps - 1\<close>)
  are the differences to the new height and all other step sizes are kept; the dwell
  points \<open>i - 1\<close> and \<open>i\<close> are replaced by their sum when both neighbours exist, the
  last dwell point is dropped when there is no step on the right, and the first one is
  dropped when there is a step on the right and none on the left; and the cursor is
  \<open>max (i - 2) (-1) + 1\<close>.
\<close>

theorem delete_step_fuses_plateaus:
  fixes st :: pstate
  defines "i \<equiv> cursor st" and "n \<equiv> number st" and "pl \<equiv> plateaus st"
    and "ph \<equiv> plateau_heights st" and "d \<equiv> dwell_points st"
  assumes c: "consistent st" and lt: "i < n" and small: "below st = Inr True"
    and ne: "plateau_length pl i + plateau_length pl (i + 1) \<noteq> 0"
  shows "\<exists>st'. delete_step st = Inr st' \<and> delete_loop st = delete_loop st' \<and>
      consistent st' \<and> number st' = n - 1 \<and>
      indices st' = pop i (indices st) \<and> direction st' = pop i (direction st) \<and>
      bounds st' = pop i (bounds st) \<and> minsizes st' = pop i (minsizes st) \<and>
      plateaus st' = take i pl @ (fst (pl ! i), snd (pl ! (i + 1))) # drop (i + 2) pl \<and>
      plateau_heights st' = take i ph @ fused_height st # drop (i + 2) ph \<and>
      (\<forall>a b. ph ! i = Fin a \<and> ph ! (i + 1) = Fin b \<longrightarrow>
         fused_height st =
           Fin ((a * of_int (plateau_length pl i) + b * of_int (plateau_length pl (i + 1))) /
                of_int (plateau_length pl i + plateau_length pl (i + 1)))) \<and>
      length (step_sizes st') = n - 1 \<and>
      (1 \<le> i \<longrightarrow> step_sizes st' ! (i - 1) = fsub (fused_height st) (ph ! (i - 1))) \<and>
      (i < n - 1 \<longrightarrow> step_sizes st' ! i = fsub (ph ! (i + 2)) (fused_height st)) \<and>
      (\<forall>j. j + 1 < i \<longrightarrow> step_sizes st' ! j = step_sizes st ! j) \<and>
      (\<forall>j. i < j \<longrightarrow> step_sizes st' ! j = step_sizes st ! (j + 1)) \<and>
      dwell_points st' =
        (if 1 \<le> i \<and> i < n - 1 then take (i - 1) d @ (d ! (i - 1) + d ! i) # drop (i + 1) d
         else if i < n - 1 then tl d else butlast d) \<and>
      int (cursor st') = max (int i - 2) (- 1) + 1"
proof -
  from c lt ne obtain st' where ds: "delete_step st = Inr st'"
    using delete_step_succeeds[of st] unfolding i_def n_def pl_def by blast
  have lt': "cursor st < number st" using lt by (simp add: i_def n_def)
  have len: "length (step_sizes st) = n" "length (dwell_points st) = n - 1"
    using c by (simp_all add: consistent_def Let_def n_def)
  have 1: "delete_loop st = delete_loop st'"
    using lt' small ds by (simp add: delete_loop.simps[of st])
  have 2: "consistent st'" using c ds lt' by (rule delete_step_consistent)
  have 3: "number st' = n - 1" using delete_step_number[OF ds] by (simp add: n_def)
  have 4: "indices st' = pop i (indices st)" "direction st' = pop i (direction st)"
      "bounds st' = pop i (bounds st)"
    using delete_step_removed[OF ds] by (simp_all add: i_def)
  have 5: "minsizes st' = pop i (minsizes st)"
    using delete_step_minsizes[OF ds] by (simp add: i_def)
  have 6: "plateaus st' = take i pl @ (fst (pl ! i), snd (pl ! (i + 1))) # drop (i + 2) pl"
    using delete_step_plateaus[OF ds] by (simp add: i_def pl_def)
  have 7: "plateau_heights st' = take i ph @ fused_height st # drop (i + 2) ph"
    using delete_step_heights[OF ds] by (simp add: i_def ph_def)
  have 8: "\<forall>a b. ph ! i = Fin a \<and> ph ! (i + 1) = Fin b \<longrightarrow>
         fused_height st =
           Fin ((a * of_int (plateau_length pl i) + b * of_int (plateau_length pl (i + 1))) /
                of_int (plateau_length pl i + plateau_length pl (i + 1)))"
    using fused_height_average[of st] ne unfolding i_def pl_def ph_def by blast
  have 9: "length (step_sizes st') = n - 1"
    using delete_step_sizes_length[OF ds] len by simp
  have 10: "1 \<le> i \<longrightarrow> step_sizes st' ! (i - 1) = fsub (fused_height st) (ph ! (i - 1))"
    using delete_step_size_left[OF ds] by (simp add: i_def ph_def)
  have 11: "i < n - 1 \<longrightarrow> step_sizes st' ! i = fsub (ph ! (i + 2)) (fused_height st)"
    using delete_step_size_right[OF ds] by (simp add: i_def ph_def n_def)
  have 12: "\<forall>j. j + 1 < i \<longrightarrow> step_sizes st' ! j = step_sizes st ! j"
    using delete_step_sizes_before[OF ds] by (simp add: i_def)
  have 13: "\<forall>j. i < j \<longrightarrow> step_sizes st' ! j = step_sizes st ! (j + 1)"
    using delete_step_sizes_after[OF ds] by (simp add: i_def)
  have 14: "dwell_points st' =
        (if 1 \<le> i \<and> i < n - 1 then take (i - 1) d @ (d ! (i - 1) + d ! i) # drop (i + 1) d
         else if i < n - 1 then tl d else butlast d)"
    using delete_step_dwell[OF ds] fuse_dwell_ok[OF lt' ] len(2)
    unfolding i_def n_def d_def by simp
  have 15: "int (cursor st') = max (int i - 2) (- 1) + 1"
    using delete_step_cursor[OF ds] by (simp add: i_def)
  show ?thesis
    using ds 1 2 3 4 5 6 7 8 9 10 11 12 13 14 15 by blast
qed

text \<open>The working copy of the example with the cursor on the middle step.\<close>

definition example_state :: pstate where
  "example_state = Steps.extend example_steps (pstate.fields [Fin 1, Fin 1, Fin 1] 1)"

theorem delete_step_fuses_plateaus_witness:
  "consistent example_state \<and> cursor example_state < number example_state \<and>
   below example_state = Inr True \<and>
   plateau_length (plateaus example_state) (cursor example_state) +
     plateau_length (plateaus example_state) (cursor example_state + 1) \<noteq> 0 \<and>
   (\<exists>st'. delete_step example_state = Inr st' \<and>
      plateaus st' = [(0, 10), (10, 30), (30, 40)] \<and>
      plateau_heights st' = [Fin 0, Fin (21 / 4), Fin 10] \<and>
      step_sizes st' ! 0 = Fin (21 / 4) \<and> step_sizes st' ! 1 = Fin (19 / 4) \<and>
      dwell_points st' = [20] \<and> cursor st' = 0 \<and> number st' = 2)"
proof -
  have ev: "example_state = \<lparr>indices = [10, 20, 30], direction = [True, True, True],
             bounds = [(9, 12), (19, 22), (29, 32)], number = 3,
             plateaus = [(0, 10), (10, 20), (20, 30), (30, 40)],
             p_centers = [5, 15, 25, 35],
             step_sizes = [Fin 5, Fin (1/2), Fin (9/2)],
             plateau_heights = [Fin 0, Fin 5, Fin (11/2), Fin 10],
             dwell_points = [10, 10], minsizes = [Fin 1, Fin 1, Fin 1], cursor = 1\<rparr>"
    by (simp add: example_state_def example_steps_def Steps.extend_def pstate.fields_def)
  have h1: "consistent example_state" by (simp add: ev consistent_def)
  have h2: "cursor example_state < number example_state" by (simp add: ev)
  have h3: "below example_state = Inr True" by (simp add: ev below_def)
  have h4: "plateau_length (plateaus example_state) (cursor example_state) +
     plateau_length (plateaus example_state) (cursor example_state + 1) \<noteq> 0"
    by (simp add: ev plateau_length_def)
  have fh: "fused_height example_state = Fin (21 / 4)"
    by (simp add: ev fused_height_def plateau_length_def)
  have f: "cursor example_state = 1" "number example_state = 3"
    "plateaus example_state = [(0, 10), (10, 20), (20, 30), (30, 40)]"
    "plateau_heights example_state = [Fin 0, Fin 5, Fin (11/2), Fin 10]"
    "dwell_points example_state = [10, 10]"
    by (simp_all add: ev)
  from delete_step_fuses_plateaus[OF h1 h2 h3 h4] obtain st' where
    "delete_step example_state = Inr st'"
    "plateaus st' = [(0, 10), (10, 30), (30, 40)]"
    "plateau_heights st' = [Fin 0, Fin (21 / 4), Fin 10]"
    "step_sizes st' ! 0 = Fin (21 / 4)" "step_sizes st' ! 1 = Fin (19 / 4)"
    "dwell_points st' = [20]" "cursor st' = 0" "number st' = 2"
    by (auto simp: fh f fsub_def)
  then show ?thesis using h1 h2 h3 h4 by blast
qed

text \<open>
  The claim as worded knows two outcomes for the dwell points: the two neighbours are
  summed, or the trailing one is dropped. With the cursor on step 0 and a step on its
  right (lines 789 to 791) neither happens: there is no dwell point on the left of step
  0, and the leading one is dropped. Three steps at 10, 17 and 30 of 40 samples, the
  first one below its threshold:
\<close>

definition leading_state :: pstate where
  "leading_state = \<lparr>indices = [10, 17, 30], direction = [True, True, True],
             bounds = [(9, 12), (16, 19), (29, 32)], number = 3,
             plateaus = [(0, 10), (10, 17), (17, 30), (30, 40)],
             p_centers = [5, 14, 24, 35],
             step_sizes = [Fin (17/7), Fin (18/7), Fin 5],
             plateau_heights = [Fin 0, Fin (17/7), Fin 5, Fin 10],
             dwell_points = [7, 13], minsizes = [Fin 3, Fin 3, Fin 3], cursor = 0\<rparr>"

text \<open>
  The dwell points \<open>[7, 13]\<close> become \<open>[13]\<close>: not the sum \<open>[20]\<close> and not \<open>[7]\<close>.
\<close>

theorem delete_step_drops_leading_dwell:
  "cursor leading_state = 0 \<and> number leading_state = 3 \<and>
   below leading_state = Inr True \<and> dwell_points leading_state = [7, 13] \<and>
   delete_step leading_state =
     Inr \<lparr>indices = [17, 30], direction = [True, True],
          bounds = [(16, 19), (29, 32)], number = 2,
          plateaus = [(0, 17), (17, 30), (30, 40)],
          p_centers = [8, 24, 35],
          step_sizes = [Fin 4, Fin 5],
          plateau_heights = [Fin 1, Fin 5, Fin 10],
          dwell_points = [13], minsizes = [Fin 3, Fin 3], cursor = 0\<rparr>"
  by (simp add: leading_state_def below_def delete_step_def fuse_dwell_def pop_def Let_def
        np_round_def fsub_def)

theorem delete_small_steps_idempotent_witness:
  "number example_steps = length (indices example_steps) \<and>
   delete_small_steps example_steps [Fin 1, Fin 1, Fin 1] =
     Inr \<lparr>indices = [10, 30], direction = [True, True],
        bounds = [(9, 12), (29, 32)], number = 2,
        plateaus = [(0, 10), (10, 30), (30, 40)], p_centers = [5, 20, 35],
        step_sizes = [Fin (21 / 4), Fin (19 / 4)],
        plateau_heights = [Fin 0, Fin (21 / 4), Fin 10],
        dwell_points = [20]\<rparr> \<and>
   delete_small_steps \<lparr>indices = [10, 30], direction = [True, True],
        bounds = [(9, 12), (29, 32)], number = 2,
        plateaus = [(0, 10), (10, 30), (30, 40)], p_centers = [5, 20, 35],
        step_sizes = [Fin (21 / 4), Fin (19 / 4)],
        plateau_heights = [Fin 0, Fin (21 / 4), Fin 10],
        dwell_points = [20]\<rparr> [Fin 1, Fin 1] =
     Inr \<lparr>indices = [10, 30], direction = [True, True],
        bounds = [(9, 12), (29, 32)], number = 2,
        plateaus = [(0, 10), (10, 30), (30, 40)], p_centers = [5, 20, 35],
        step_sizes = [Fin (21 / 4), Fin (19 / 4)],
        plateau_heights = [Fin 0, Fin (21 / 4), Fin 10],
        dwell_points = [20]\<rparr>"
proof -
  have n: "number example_steps = length (indices example_steps)" by (simp add: example_steps_def)
  show ?thesis
    using delete_small_steps_idempotent[OF n example_run] n
    by (simp add: steps_of_def Steps.truncate_def numeral_2_eq_2)
qed

section \<open>The result of the filter\<close>

text \<open>
  The functions \<^verbatim>\<open>_filter_fbnl\<close> and \<^verbatim>\<open>_filter_fbnl_capped\<close> return a tuple of twelve
  values; \<^verbatim>\<open>filter_fbnl\<close> puts them, in the same order, in front of the values it
  computes itself to make the named tuple \<^verbatim>\<open>FBNLFilterResult\<close>. The tuple is the
  record \<open>FBNLCore\<close> and the named tuple its extension. The last four fields of the named
  tuple (\<^verbatim>\<open>aSNR\<close>, \<^verbatim>\<open>mSNR\<close>, \<^verbatim>\<open>STD\<close>, \<^verbatim>\<open>outls\<close>) are summary statistics of the step
  mass, computed with numpy functions that raise nothing; no function modelled here
  reads them and they are left out. \<^verbatim>\<open>window\<close> and \<^verbatim>\<open>window_var\<close> are Python integers.
\<close>

record FBNLCore =
  data :: "npfloat list"
  resolution :: npfloat
  window :: int
  window_var :: int
  p :: npfloat
  data_filtered :: "npfloat list"
  sf :: "npfloat list"
  sb :: "npfloat list"
  f :: "npfloat list"
  b :: "npfloat list"
  xf :: "npfloat list"
  xb :: "npfloat list"

record FBNLFilterResult = FBNLCore +
  step_mass :: "npfloat list"
  step_size :: "npfloat list"
  noise :: "npfloat list"
  noise_mean :: npfloat

text \<open>
  A slice \<^verbatim>\<open>xs[start:stop]\<close> of Python and numpy: a negative bound counts from the end,
  and both bounds are clipped to the array; it never raises.
\<close>

definition slice_bound :: "int \<Rightarrow> nat \<Rightarrow> nat" where
  "slice_bound k n = (if k < 0 then nat (max (k + int n) 0) else min (nat k) n)"

definition py_slice :: "'a list \<Rightarrow> int \<Rightarrow> int \<Rightarrow> 'a list" where
  "py_slice xs start stop =
     (let a = slice_bound start (length xs); b = slice_bound stop (length xs)
      in take (b - a) (drop a xs))"

section \<open>The thresholds of the pruner: \<^verbatim>\<open>get_min_step_sizes\<close>\<close>

text \<open>
  The argument \<^verbatim>\<open>step_size_threshold\<close> is \<^verbatim>\<open>None\<close>, one of the strings \<^verbatim>\<open>'adapt'\<close> and
  \<^verbatim>\<open>'static'\<close>, or a float. \<^verbatim>\<open>step_size_threshold or 'adapt'\<close> replaces \<^verbatim>\<open>None\<close> and
  the float \<open>0.0\<close>, which Python takes as false, by \<^verbatim>\<open>'adapt'\<close>.
\<close>

datatype threshold = Adapt | Static | Literal npfloat

fun or_adapt :: "threshold option \<Rightarrow> threshold" where
  "or_adapt None = Adapt"
| "or_adapt (Some (Literal (Fin a))) = (if a = 0 then Adapt else Literal (Fin a))"
| "or_adapt (Some t) = t"

text \<open>The mean noise around one step (lines 692 to 694).\<close>

definition adapt_noise_mean :: "FBNLFilterResult \<Rightarrow> int \<Rightarrow> npfloat" where
  "adapt_noise_mean fbnl_filter step =
     (let window = window fbnl_filter; window_var = window_var fbnl_filter;
          noise = noise fbnl_filter;
          start_min = window + window_var - 1;
          stop_max = int (length noise) - start_min;
          start = max (step - (window + window_var)) start_min;
          stop = min (step + (window + window_var) * window) stop_max
      in fmean (py_slice noise start stop))"

definition get_min_step_sizes ::
  "int list \<Rightarrow> npfloat \<Rightarrow> FBNLFilterResult \<Rightarrow> threshold option
     \<Rightarrow> npfloat list \<times> threshold" where
  "get_min_step_sizes idx y_c fbnl_filter step_size_threshold =
     (let step_size_threshold = or_adapt step_size_threshold;
          number = length idx
      in case step_size_threshold of
           Adapt \<Rightarrow>
             (map (\<lambda>step. fmul y_c (adapt_noise_mean fbnl_filter step)) idx,
              step_size_threshold)
         | Static \<Rightarrow>
             (replicate number (fmul (fmul (Fin 1) y_c) (noise_mean fbnl_filter)),
              step_size_threshold)
         | Literal v \<Rightarrow> (replicate number (fmul (Fin 1) v), step_size_threshold))"

text \<open>
  The two constant policies: one value for every step, \<open>y_c\<close> times the mean noise of
  the filter for \<^verbatim>\<open>'static'\<close>, the float itself for a float other than \<open>0.0\<close>.
\<close>

lemma get_min_step_sizes_static:
  "get_min_step_sizes idx y_c fbnl_filter (Some Static) =
     (replicate (length idx) (fmul (fmul (Fin 1) y_c) (noise_mean fbnl_filter)), Static)"
  by (simp add: get_min_step_sizes_def)

lemma get_min_step_sizes_literal:
  "v \<noteq> 0 \<Longrightarrow> get_min_step_sizes idx y_c fbnl_filter (Some (Literal (Fin v))) =
     (replicate (length idx) (Fin v), Literal (Fin v))"
  by (simp add: get_min_step_sizes_def)

text \<open>
  An example: a filter result of 12 samples with \<open>window = 2\<close> and \<open>window_var = 1\<close>, so
  that the noise is defined from index 2 to index 9, and a step at index 5.
\<close>

definition example_filter :: FBNLFilterResult where
  "example_filter =
     \<lparr>data = replicate 12 (Fin 0), resolution = Fin 1000, window = 2, window_var = 1,
      p = Fin 1, data_filtered = replicate 12 NaN, sf = replicate 12 NaN,
      sb = replicate 12 NaN, f = replicate 12 NaN, b = replicate 12 NaN,
      xf = replicate 12 NaN, xb = replicate 12 NaN, step_mass = replicate 12 NaN,
      step_size = replicate 12 NaN,
      noise = [NaN, NaN, Fin 1, Fin 1, Fin 1, Fin 1, Fin 1, Fin 1, Fin 4, Fin 4, NaN, NaN],
      noise_mean = Fin (7 / 4)\<rparr>"

lemma example_filter_fields:
  "window example_filter = 2" "window_var example_filter = 1"
  "noise example_filter =
     [NaN, NaN, Fin 1, Fin 1, Fin 1, Fin 1, Fin 1, Fin 1, Fin 4, Fin 4, NaN, NaN]"
  by (simp_all add: example_filter_def)

lemma adapt_noise_mean_example: "adapt_noise_mean example_filter 5 = Fin (7 / 4)"
  apply (simp add: adapt_noise_mean_def example_filter_fields Let_def)
  apply (simp add: py_slice_def slice_bound_def fmean_def)
  done

text \<open>
  Claim C4, at the example. With the policy \<^verbatim>\<open>'adapt'\<close> the threshold of the step at
  index 5 is \<open>y_c\<close> times the mean of the noise over the indices 2 to 9, that is from
  \<open>step - (window + window_var)\<close> to \<open>step + (window + window_var) * window\<close>, clipped to
  the valid interior: \<open>7/4\<close> for \<open>y_c = 1\<close>. The mean of the noise over the samples within
  \<open>window + window_var = 3\<close> samples of the step, indices 2 to 7, is \<open>1\<close>.
\<close>

theorem get_min_step_sizes_adapt_example:
  "get_min_step_sizes [5] (Fin 1) example_filter None = ([Fin (7 / 4)], Adapt) \<and>
   fmean (py_slice (noise example_filter) (5 - (2 + 1)) (5 + (2 + 1))) = Fin 1"
  by (simp add: get_min_step_sizes_def adapt_noise_mean_example example_filter_fields
        py_slice_def slice_bound_def fmean_def)

section \<open>The quality scorer: \<^verbatim>\<open>get_step_qualities\<close>\<close>

record StepQuality =
  step_sd :: "npfloat list"
  step_noise :: "npfloat list"
  step_noise_over_sd :: "npfloat list"

text \<open>
  The index ranges of one pass of the loop (lines 869 to 879), for the plateau \<open>p_l\<close> on
  the left of a step and the plateau \<open>p_r\<close> on its right:
  \<open>(start_l, stop_l, start_r, stop_r)\<close>.
\<close>

definition quality_ranges ::
  "int \<Rightarrow> int \<Rightarrow> int \<Rightarrow> int \<times> int \<Rightarrow> int \<times> int \<Rightarrow> int \<times> int \<times> int \<times> int" where
  "quality_ranges win start_min stop_max p_l p_r =
     (let start_l = np_round (of_int (fst p_l) + of_int (snd p_l - fst p_l) / 2);
          start_l = max start_l (fst p_l + win);
          start_l = max start_l start_min;
          stop_l = snd p_l - win;
          stop_l = max stop_l start_l;
          start_r = fst p_r + win;
          stop_r = np_round (of_int (snd p_r) - of_int (snd p_r - fst p_r) / 2);
          stop_r = min stop_r (snd p_r - win);
          stop_r = min stop_r stop_max;
          start_r = min start_r stop_r
      in (start_l, stop_l, start_r, stop_r))"

text \<open>
  The residuals \<^verbatim>\<open>p_h\<close> of the data against the two plateau heights (lines 881 to 890)
  and the standard deviation of line 891.
\<close>

definition residuals ::
  "npfloat list \<Rightarrow> int \<times> int \<times> int \<times> int \<Rightarrow> npfloat \<Rightarrow> npfloat \<Rightarrow> npfloat list" where
  "residuals dat r ph_l ph_r =
     (case r of (start_l, stop_l, start_r, stop_r) \<Rightarrow>
        map (\<lambda>x. fsub x ph_l) (py_slice dat start_l stop_l) @
        map (\<lambda>x. fsub x ph_r) (py_slice dat start_r stop_r))"

definition total_number :: "int \<times> int \<times> int \<times> int \<Rightarrow> int" where
  "total_number r =
     (case r of (start_l, stop_l, start_r, stop_r) \<Rightarrow> stop_r - start_r + stop_l - start_l)"

definition sd_of :: "npfloat list \<Rightarrow> int \<Rightarrow> npfloat" where
  "sd_of p_h n = fsqrt (fdiv (fsum (map (\<lambda>x. fmul x x) p_h)) (Fin (of_int (n - 1))))"

text \<open>The mean noise over the same ranges (lines 894 to 898).\<close>

definition noise_of :: "npfloat list \<Rightarrow> int \<times> int \<times> int \<times> int \<Rightarrow> npfloat" where
  "noise_of nz r =
     (case r of (start_l, stop_l, start_r, stop_r) \<Rightarrow>
        let total_noise = py_slice nz start_l stop_l @ py_slice nz start_r stop_r
        in if 0 < length total_noise then fmean total_noise else NaN)"

text \<open>One pass of the loop: \<^verbatim>\<open>step_sd[i]\<close> and \<^verbatim>\<open>step_noise[i]\<close>.\<close>

definition join_quality ::
  "FBNLFilterResult \<Rightarrow> (int \<times> int) \<times> (int \<times> int) \<Rightarrow> npfloat \<times> npfloat
     \<Rightarrow> npfloat \<times> npfloat" where
  "join_quality fbnl_filter pp hh =
     (let start_min = window fbnl_filter + window_var fbnl_filter - 1;
          stop_max = int (length (noise fbnl_filter)) - start_min;
          r = quality_ranges (window fbnl_filter) start_min stop_max (fst pp) (snd pp)
      in (sd_of (residuals (data fbnl_filter) r (fst hh) (snd hh)) (total_number r),
          noise_of (noise fbnl_filter) r))"

text \<open>
  The function. The loop runs over the pairs of neighbouring plateaus; the two result
  arrays have one entry per step index and start as zeros, so that a pass beyond their
  end raises IndexError.
\<close>

definition get_step_qualities :: "Steps \<Rightarrow> FBNLFilterResult \<Rightarrow> error + StepQuality" where
  "get_step_qualities steps fbnl_filter =
     (let pl = plateaus steps; ph = plateau_heights steps;
          joins = zip (zip (butlast pl) (tl pl)) (zip (butlast ph) (tl ph));
          n = length (indices steps)
      in if n < length joins then Inl IndexError
         else
           let vals = map (\<lambda>(pp, hh). join_quality fbnl_filter pp hh) joins;
               sd = map fst vals @ replicate (n - length joins) (Fin 0);
               nz = map snd vals @ replicate (n - length joins) (Fin 0)
           in Inr \<lparr>step_sd = sd, step_noise = nz,
                   step_noise_over_sd = map (\<lambda>(a, c). fdiv a c) (zip nz sd)\<rparr>)"

subsection \<open>One score per step\<close>

lemma quality_ranges_eq:
  "quality_ranges win start_min stop_max p_l p_r =
    (max (max (np_round (of_int (fst p_l) + of_int (snd p_l - fst p_l) / 2))
              (fst p_l + win)) start_min,
     max (snd p_l - win)
         (max (max (np_round (of_int (fst p_l) + of_int (snd p_l - fst p_l) / 2))
                   (fst p_l + win)) start_min),
     min (fst p_r + win)
         (min (min (np_round (of_int (snd p_r) - of_int (snd p_r - fst p_r) / 2))
                   (snd p_r - win)) stop_max),
     min (min (np_round (of_int (snd p_r) - of_int (snd p_r - fst p_r) / 2))
              (snd p_r - win)) stop_max)"
  unfolding quality_ranges_def Let_def ..

lemma quality_ranges_bounds:
  assumes "quality_ranges win start_min stop_max p_l p_r = (start_l, stop_l, start_r, stop_r)"
  shows "start_min \<le> start_l" and "fst p_l + win \<le> start_l"
    and "np_round (of_int (fst p_l) + of_int (snd p_l - fst p_l) / 2) \<le> start_l"
    and "start_l \<le> stop_l" and "snd p_l - win \<le> stop_l"
    and "start_r \<le> stop_r" and "start_r \<le> fst p_r + win"
    and "stop_r \<le> stop_max" and "stop_r \<le> snd p_r - win"
    and "stop_r \<le> np_round (of_int (snd p_r) - of_int (snd p_r - fst p_r) / 2)"
proof -
  from assms have
    a: "start_l = max (max (np_round (of_int (fst p_l) + of_int (snd p_l - fst p_l) / 2))
              (fst p_l + win)) start_min" and
    b: "stop_l = max (snd p_l - win) start_l" and
    c: "start_r = min (fst p_r + win) stop_r" and
    d: "stop_r = min (min (np_round (of_int (snd p_r) - of_int (snd p_r - fst p_r) / 2))
              (snd p_r - win)) stop_max"
    unfolding quality_ranges_eq by auto
  show "start_min \<le> start_l" unfolding a by (rule max.cobounded2)
  show "fst p_l + win \<le> start_l" unfolding a by (simp add: le_max_iff_disj)
  show "np_round (of_int (fst p_l) + of_int (snd p_l - fst p_l) / 2) \<le> start_l"
    unfolding a by (simp add: le_max_iff_disj)
  show "start_l \<le> stop_l" unfolding b by (rule max.cobounded2)
  show "snd p_l - win \<le> stop_l" unfolding b by (rule max.cobounded1)
  show "start_r \<le> stop_r" unfolding c by (rule min.cobounded2)
  show "start_r \<le> fst p_r + win" unfolding c by (rule min.cobounded1)
  show "stop_r \<le> stop_max" unfolding d by (rule min.cobounded2)
  show "stop_r \<le> snd p_r - win" unfolding d by (simp add: min_le_iff_disj)
  show "stop_r \<le> np_round (of_int (snd p_r) - of_int (snd p_r - fst p_r) / 2)"
    unfolding d by (simp add: min_le_iff_disj)
qed

lemma fsum_squares:
  "fsum (map (\<lambda>x. fmul x x) (map Fin rs)) = Fin (sum_list (map (\<lambda>r. r * r) rs))"
  by (induction rs) simp_all

lemma sd_of_sample:
  assumes "2 \<le> n"
  shows "sd_of (map Fin rs) n = Fin (sqrt (sum_list (map (\<lambda>r. r * r) rs) / (of_int n - 1)))"
proof -
  have "0 \<le> sum_list (map (\<lambda>r. r * r) rs)" by (induction rs) simp_all
  moreover have "0 < real_of_int n - 1" using assms by simp
  ultimately have nn: "\<not> sum_list (map (\<lambda>r. r * r) rs) / (real_of_int n - 1) < 0"
    by (simp add: not_less)
  have "sd_of (map Fin rs) n =
      fsqrt (fdiv (Fin (sum_list (map (\<lambda>r. r * r) rs))) (Fin (of_int (n - 1))))"
    unfolding sd_of_def fsum_squares ..
  then show ?thesis using assms nn by simp
qed

lemma noise_of_empty:
  "py_slice nz start_l stop_l = [] \<Longrightarrow> py_slice nz start_r stop_r = [] \<Longrightarrow>
   noise_of nz (start_l, stop_l, start_r, stop_r) = NaN"
  by (simp add: noise_of_def)

lemma length_joins:
  "length (zip (zip (butlast pl) (tl pl)) (zip (butlast ph) (tl ph))) =
     min (length pl - 1) (length ph - 1)"
  by simp

lemma nth_joins:
  assumes "i < length pl - 1" "i < length ph - 1"
  shows "zip (zip (butlast pl) (tl pl)) (zip (butlast ph) (tl ph)) ! i =
     ((pl ! i, pl ! (i + 1)), (ph ! i, ph ! (i + 1)))"
  using assms by (simp add: nth_butlast nth_tl)


text \<open>
  The scorer raises nothing on a \<open>Steps\<close> value with \<open>number = len(indices)\<close> and
  \<open>number + 1\<close> plateaus and plateau heights, and pass \<open>i\<close> of its loop fills entry \<open>i\<close>.
\<close>

lemma get_step_qualities_joins:
  assumes n: "number steps = length (indices steps)"
    and pl: "length (plateaus steps) = number steps + 1"
    and ph: "length (plateau_heights steps) = number steps + 1"
  shows "\<exists>q. get_step_qualities steps fbnl_filter = Inr q \<and>
      length (step_sd q) = number steps \<and> length (step_noise q) = number steps \<and>
      length (step_noise_over_sd q) = number steps \<and>
      (\<forall>i<number steps.
         (step_sd q ! i, step_noise q ! i) =
           join_quality fbnl_filter (plateaus steps ! i, plateaus steps ! (i + 1))
             (plateau_heights steps ! i, plateau_heights steps ! (i + 1)) \<and>
         step_noise_over_sd q ! i = fdiv (step_noise q ! i) (step_sd q ! i))"
proof -
  define joins where "joins = zip (zip (butlast (plateaus steps)) (tl (plateaus steps)))
                    (zip (butlast (plateau_heights steps)) (tl (plateau_heights steps)))"
  define vals where "vals = map (\<lambda>(pp, hh). join_quality fbnl_filter pp hh) joins"
  define q where "q = \<lparr>step_sd = map fst vals, step_noise = map snd vals,
             step_noise_over_sd = map (\<lambda>(a, c). fdiv a c) (zip (map snd vals) (map fst vals))\<rparr>"
  have len: "length joins = number steps" using pl ph by (simp add: joins_def)
  then have lv: "length vals = number steps" by (simp add: vals_def)
  have "get_step_qualities steps fbnl_filter =
      (if length (indices steps) < length joins then Inl IndexError
       else Inr \<lparr>step_sd = map fst vals @ replicate (length (indices steps) - length joins) (Fin 0),
                 step_noise = map snd vals @ replicate (length (indices steps) - length joins) (Fin 0),
                 step_noise_over_sd = map (\<lambda>(a, c). fdiv a c)
                   (zip (map snd vals @ replicate (length (indices steps) - length joins) (Fin 0))
                        (map fst vals @ replicate (length (indices steps) - length joins) (Fin 0)))\<rparr>)"
    unfolding get_step_qualities_def Let_def joins_def vals_def ..
  then have run: "get_step_qualities steps fbnl_filter = Inr q"
    using len n by (simp add: q_def)
  have nth: "vals ! i = join_quality fbnl_filter (plateaus steps ! i, plateaus steps ! (i + 1))
             (plateau_heights steps ! i, plateau_heights steps ! (i + 1))" if "i < number steps" for i
  proof -
    have "joins ! i = ((plateaus steps ! i, plateaus steps ! (i + 1)),
                        (plateau_heights steps ! i, plateau_heights steps ! (i + 1)))"
      unfolding joins_def using that pl ph by (intro nth_joins) simp_all
    moreover have "vals ! i = (\<lambda>(pp, hh). join_quality fbnl_filter pp hh) (joins ! i)"
      unfolding vals_def using that len by (intro nth_map) simp
    ultimately show ?thesis by simp
  qed
  have per: "(step_sd q ! i, step_noise q ! i) =
           join_quality fbnl_filter (plateaus steps ! i, plateaus steps ! (i + 1))
             (plateau_heights steps ! i, plateau_heights steps ! (i + 1)) \<and>
         step_noise_over_sd q ! i = fdiv (step_noise q ! i) (step_sd q ! i)"
    if i: "i < number steps" for i
  proof -
    have l: "i < length vals" using i lv by simp
    have a: "step_sd q ! i = fst (vals ! i)" "step_noise q ! i = snd (vals ! i)"
      using l by (simp_all add: q_def)
    have "step_noise_over_sd q ! i = fdiv (snd (vals ! i)) (fst (vals ! i))"
      using l by (simp add: q_def)
    then show ?thesis using a nth[OF i] by simp
  qed
  have "length (step_sd q) = number steps" "length (step_noise q) = number steps"
    "length (step_noise_over_sd q) = number steps" using lv by (simp_all add: q_def)
  then show ?thesis using run per by blast
qed

lemma fmul_self_Fin: "fmul d d = Fin u \<Longrightarrow> 0 \<le> u"
  by (cases d) (auto simp: inf_times_def)

lemma fadd_Fin: "fadd x y = Fin s \<Longrightarrow> \<exists>u v. x = Fin u \<and> y = Fin v \<and> s = u + v"
  by (cases x; cases y) auto

lemma fsum_squares_nonneg:
  "fsum (map (\<lambda>x. fmul x x) xs) = Fin s \<Longrightarrow> 0 \<le> s"
proof (induction xs arbitrary: s)
  case Nil then show ?case by simp
next
  case (Cons a xs)
  from Cons.prems obtain u v where
    "fmul a a = Fin u" "fsum (map (\<lambda>x. fmul x x) xs) = Fin v" "s = u + v"
    using fadd_Fin by fastforce
  then show ?case using Cons.IH[of v] fmul_self_Fin[of a u] by simp
qed

lemma length_py_slice:
  "0 \<le> lo \<Longrightarrow> lo \<le> hi \<Longrightarrow> hi \<le> int (length xs) \<Longrightarrow> int (length (py_slice xs lo hi)) = hi - lo"
  by (auto simp: py_slice_def slice_bound_def Let_def)

lemma sd_sample:
  assumes "2 \<le> tn" "S = Fin s" "fsum (map (\<lambda>x. fmul x x) res) = S"
  shows "fsqrt (fdiv S (Fin (of_int (tn - 1)))) = Fin (sqrt (s / (of_int tn - 1)))"
proof -
  have "0 \<le> s" using assms fsum_squares_nonneg by blast
  moreover have "0 < real_of_int tn - 1" using assms(1) by simp
  ultimately have "\<not> s / (real_of_int tn - 1) < 0" by (simp add: not_less)
  then show ?thesis using assms(1,2) by simp
qed

lemma sd_single_pos: "0 < s \<Longrightarrow> fsqrt (fdiv (Fin s) (Fin (of_int (1 - 1)))) = PInf"
  by simp

lemma sd_single_zero: "fsqrt (fdiv (Fin 0) (Fin (of_int (1 - 1)))) = NaN"
  by simp

lemma fdiv_PInf: "fdiv x PInf = (if isfin x then Fin 0 else NaN)"
  by (cases x) simp_all

lemma fdiv_NaN_right: "fdiv x NaN = NaN"
  by (cases x) simp_all

lemma join_quality_explicit:
  "join_quality fbnl_filter (p_l, p_r) (h_l, h_r) =
     (fsqrt (fdiv (fsum (map (\<lambda>x. fmul x x)
          (map (\<lambda>x. fsub x h_l) (py_slice (data fbnl_filter) start_l stop_l) @
           map (\<lambda>x. fsub x h_r) (py_slice (data fbnl_filter) start_r stop_r))))
        (Fin (of_int (stop_r - start_r + stop_l - start_l - 1)))),
      (let total_noise = py_slice (noise fbnl_filter) start_l stop_l @
                         py_slice (noise fbnl_filter) start_r stop_r
       in if total_noise = [] then NaN else fmean total_noise))"
  if "quality_ranges (window fbnl_filter) (window fbnl_filter + window_var fbnl_filter - 1)
        (int (length (noise fbnl_filter)) - (window fbnl_filter + window_var fbnl_filter - 1))
        p_l p_r = (start_l, stop_l, start_r, stop_r)"
  using that
  by (simp add: join_quality_def Let_def sd_of_def residuals_def total_number_def noise_of_def)

text \<open>
  Claim C5, for a \<open>Steps\<close> value with \<open>number = len(indices)\<close> and \<open>number + 1\<close> plateaus
  and plateau heights. The scorer raises nothing and returns \<open>number\<close> scores, one for
  every step: score \<open>i\<close> is computed from plateau \<open>i\<close> on the left of step \<open>i\<close> and plateau
  \<open>i + 1\<close> on its right, the first and the last plateau included. The left range starts
  at the rounded midpoint of the left plateau, at least \<open>window\<close> after its start and not
  below \<open>start_min = window + window_var - 1\<close>, and stops \<open>window\<close> before the step, but not
  before its own start; the right range stops at the rounded midpoint of the right
  plateau, at least \<open>window\<close> before its end and not above \<open>stop_max = len(noise) - start_min\<close>,
  and starts \<open>window\<close> after the step, but not after its own stop. With \<open>S\<close> the sum of the
  squared residuals of the data of the two ranges against the height of their plateau
  and \<open>tn\<close> the nominal number of samples of the two ranges (the number of residuals, when
  the ranges lie inside the data), \<^verbatim>\<open>step_sd[i]\<close> is \<open>sqrt (S / (tn - 1))\<close>: a real square
  root with the denominator \<open>tn - 1\<close> when \<open>2 \<le> tn\<close> and \<open>S\<close> is finite. \<^verbatim>\<open>step_noise[i]\<close> is the
  mean of the noise over the two ranges and NaN when both are empty, and the ratio is
  \<^verbatim>\<open>step_noise[i] / step_sd[i]\<close>. A division by zero (\<open>tn = 1\<close>) gives the standard
  deviation infinity when \<open>S\<close> is positive, with the ratio 0 for a finite
  \<^verbatim>\<open>step_noise[i]\<close> and NaN otherwise, and the standard deviation NaN and the ratio NaN
  when \<open>S\<close> is 0; empty ranges give the ratio NaN.
\<close>

theorem get_step_qualities_per_step:
  fixes steps :: Steps and fbnl_filter :: FBNLFilterResult
  defines "w \<equiv> window fbnl_filter"
    and "start_min \<equiv> window fbnl_filter + window_var fbnl_filter - 1"
    and "stop_max \<equiv> int (length (noise fbnl_filter)) -
                       (window fbnl_filter + window_var fbnl_filter - 1)"
    and "dat \<equiv> data fbnl_filter" and "nz \<equiv> noise fbnl_filter"
    and "pl \<equiv> plateaus steps" and "ph \<equiv> plateau_heights steps"
  assumes n: "number steps = length (indices steps)"
    and pl: "length (plateaus steps) = number steps + 1"
    and ph: "length (plateau_heights steps) = number steps + 1"
  shows "\<exists>q. get_step_qualities steps fbnl_filter = Inr q \<and>
      length (step_sd q) = number steps \<and> length (step_noise q) = number steps \<and>
      length (step_noise_over_sd q) = number steps \<and>
      (\<forall>i<number steps. \<exists>start_l stop_l start_r stop_r res tn S.
         start_l = max (max (np_round (of_int (fst (pl ! i)) +
                                of_int (snd (pl ! i) - fst (pl ! i)) / 2))
                            (fst (pl ! i) + w)) start_min \<and>
         stop_l = max (snd (pl ! i) - w) start_l \<and>
         stop_r = min (min (np_round (of_int (snd (pl ! (i + 1))) -
                                of_int (snd (pl ! (i + 1)) - fst (pl ! (i + 1))) / 2))
                           (snd (pl ! (i + 1)) - w)) stop_max \<and>
         start_r = min (fst (pl ! (i + 1)) + w) stop_r \<and>
         res = map (\<lambda>x. fsub x (ph ! i)) (py_slice dat start_l stop_l) @
               map (\<lambda>x. fsub x (ph ! (i + 1))) (py_slice dat start_r stop_r) \<and>
         tn = stop_r - start_r + stop_l - start_l \<and>
         S = fsum (map (\<lambda>x. fmul x x) res) \<and>
         step_sd q ! i = fsqrt (fdiv S (Fin (of_int (tn - 1)))) \<and>
         step_noise q ! i =
           (let total_noise = py_slice nz start_l stop_l @ py_slice nz start_r stop_r
            in if total_noise = [] then NaN else fmean total_noise) \<and>
         step_noise_over_sd q ! i = fdiv (step_noise q ! i) (step_sd q ! i) \<and>
         0 \<le> tn \<and>
         (0 \<le> start_l \<and> stop_l \<le> int (length dat) \<and> 0 \<le> start_r \<and>
          stop_r \<le> int (length dat) \<longrightarrow> int (length res) = tn) \<and>
         (\<forall>s. 2 \<le> tn \<and> S = Fin s \<longrightarrow> step_sd q ! i = Fin (sqrt (s / (of_int tn - 1)))) \<and>
         (\<forall>s. tn = 1 \<and> S = Fin s \<and> 0 < s \<longrightarrow>
            step_sd q ! i = PInf \<and>
            step_noise_over_sd q ! i = (if isfin (step_noise q ! i) then Fin 0 else NaN)) \<and>
         (tn = 1 \<and> S = Fin 0 \<longrightarrow> step_sd q ! i = NaN \<and> step_noise_over_sd q ! i = NaN) \<and>
         (py_slice nz start_l stop_l = [] \<and> py_slice nz start_r stop_r = [] \<longrightarrow>
            step_noise q ! i = NaN \<and> step_noise_over_sd q ! i = NaN))"
proof -
  from get_step_qualities_joins[OF n pl ph, of fbnl_filter] obtain q where
    run: "get_step_qualities steps fbnl_filter = Inr q"
    and len: "length (step_sd q) = number steps" "length (step_noise q) = number steps"
      "length (step_noise_over_sd q) = number steps"
    and per: "\<And>i. i < number steps \<Longrightarrow>
         (step_sd q ! i, step_noise q ! i) =
           join_quality fbnl_filter (plateaus steps ! i, plateaus steps ! (i + 1))
             (plateau_heights steps ! i, plateau_heights steps ! (i + 1)) \<and>
         step_noise_over_sd q ! i = fdiv (step_noise q ! i) (step_sd q ! i)"
    by blast
  have main: "\<exists>start_l stop_l start_r stop_r res tn S.
         start_l = max (max (np_round (of_int (fst (pl ! i)) +
                                of_int (snd (pl ! i) - fst (pl ! i)) / 2))
                            (fst (pl ! i) + w)) start_min \<and>
         stop_l = max (snd (pl ! i) - w) start_l \<and>
         stop_r = min (min (np_round (of_int (snd (pl ! (i + 1))) -
                                of_int (snd (pl ! (i + 1)) - fst (pl ! (i + 1))) / 2))
                           (snd (pl ! (i + 1)) - w)) stop_max \<and>
         start_r = min (fst (pl ! (i + 1)) + w) stop_r \<and>
         res = map (\<lambda>x. fsub x (ph ! i)) (py_slice dat start_l stop_l) @
               map (\<lambda>x. fsub x (ph ! (i + 1))) (py_slice dat start_r stop_r) \<and>
         tn = stop_r - start_r + stop_l - start_l \<and>
         S = fsum (map (\<lambda>x. fmul x x) res) \<and>
         step_sd q ! i = fsqrt (fdiv S (Fin (of_int (tn - 1)))) \<and>
         step_noise q ! i =
           (let total_noise = py_slice nz start_l stop_l @ py_slice nz start_r stop_r
            in if total_noise = [] then NaN else fmean total_noise) \<and>
         step_noise_over_sd q ! i = fdiv (step_noise q ! i) (step_sd q ! i) \<and>
         0 \<le> tn \<and>
         (0 \<le> start_l \<and> stop_l \<le> int (length dat) \<and> 0 \<le> start_r \<and>
          stop_r \<le> int (length dat) \<longrightarrow> int (length res) = tn) \<and>
         (\<forall>s. 2 \<le> tn \<and> S = Fin s \<longrightarrow> step_sd q ! i = Fin (sqrt (s / (of_int tn - 1)))) \<and>
         (\<forall>s. tn = 1 \<and> S = Fin s \<and> 0 < s \<longrightarrow>
            step_sd q ! i = PInf \<and>
            step_noise_over_sd q ! i = (if isfin (step_noise q ! i) then Fin 0 else NaN)) \<and>
         (tn = 1 \<and> S = Fin 0 \<longrightarrow> step_sd q ! i = NaN \<and> step_noise_over_sd q ! i = NaN) \<and>
         (py_slice nz start_l stop_l = [] \<and> py_slice nz start_r stop_r = [] \<longrightarrow>
            step_noise q ! i = NaN \<and> step_noise_over_sd q ! i = NaN)"
    if i: "i < number steps" for i
  proof -
    define start_l where "start_l = max (max (np_round (of_int (fst (pl ! i)) +
                                of_int (snd (pl ! i) - fst (pl ! i)) / 2))
                            (fst (pl ! i) + w)) start_min"
    define stop_l where "stop_l = max (snd (pl ! i) - w) start_l"
    define stop_r where "stop_r = min (min (np_round (of_int (snd (pl ! (i + 1))) -
                                of_int (snd (pl ! (i + 1)) - fst (pl ! (i + 1))) / 2))
                           (snd (pl ! (i + 1)) - w)) stop_max"
    define start_r where "start_r = min (fst (pl ! (i + 1)) + w) stop_r"
    define res where "res = map (\<lambda>x. fsub x (ph ! i)) (py_slice dat start_l stop_l) @
               map (\<lambda>x. fsub x (ph ! (i + 1))) (py_slice dat start_r stop_r)"
    define tn where "tn = stop_r - start_r + stop_l - start_l"
    define S where "S = fsum (map (\<lambda>x. fmul x x) res)"
    have qr: "quality_ranges (window fbnl_filter)
        (window fbnl_filter + window_var fbnl_filter - 1)
        (int (length (noise fbnl_filter)) - (window fbnl_filter + window_var fbnl_filter - 1))
        (pl ! i) (pl ! (i + 1)) = (start_l, stop_l, start_r, stop_r)"
      unfolding quality_ranges_eq start_l_def stop_l_def stop_r_def start_r_def
        w_def start_min_def stop_max_def ..
    have jq: "join_quality fbnl_filter (pl ! i, pl ! (i + 1)) (ph ! i, ph ! (i + 1)) =
       (fsqrt (fdiv S (Fin (of_int (tn - 1)))),
        (let total_noise = py_slice nz start_l stop_l @ py_slice nz start_r stop_r
         in if total_noise = [] then NaN else fmean total_noise))"
      unfolding S_def res_def tn_def dat_def nz_def
      using join_quality_explicit[OF qr, of "ph ! i" "ph ! (i + 1)"]
      by (simp add: algebra_simps)
    have sd: "step_sd q ! i = fsqrt (fdiv S (Fin (of_int (tn - 1))))"
      and nzq: "step_noise q ! i =
           (let total_noise = py_slice nz start_l stop_l @ py_slice nz start_r stop_r
            in if total_noise = [] then NaN else fmean total_noise)"
      and ratio: "step_noise_over_sd q ! i = fdiv (step_noise q ! i) (step_sd q ! i)"
      using per[OF i] jq unfolding pl_def ph_def by simp_all
    have le: "start_l \<le> stop_l" "start_r \<le> stop_r"
      unfolding stop_l_def start_r_def by simp_all
    then have tn0: "0 \<le> tn" unfolding tn_def by simp
    have lenres: "int (length res) = tn"
      if "0 \<le> start_l \<and> stop_l \<le> int (length dat) \<and> 0 \<le> start_r \<and> stop_r \<le> int (length dat)"
      using that le length_py_slice[of start_l stop_l dat] length_py_slice[of start_r stop_r dat]
      unfolding res_def tn_def by simp
    have c2: "step_sd q ! i = Fin (sqrt (s / (of_int tn - 1)))" if "2 \<le> tn \<and> S = Fin s" for s
      unfolding sd using that sd_sample[of tn S s res] S_def by simp
    have c1: "step_sd q ! i = PInf \<and>
            step_noise_over_sd q ! i = (if isfin (step_noise q ! i) then Fin 0 else NaN)"
      if "tn = 1 \<and> S = Fin s \<and> 0 < s" for s
    proof -
      have "step_sd q ! i = PInf" unfolding sd using that by simp
      then show ?thesis using ratio by (simp add: fdiv_PInf)
    qed
    have c0: "step_sd q ! i = NaN \<and> step_noise_over_sd q ! i = NaN" if "tn = 1 \<and> S = Fin 0"
    proof -
      have "step_sd q ! i = NaN" unfolding sd using that by simp
      then show ?thesis using ratio by (simp add: fdiv_NaN_right)
    qed
    have ce: "step_noise q ! i = NaN \<and> step_noise_over_sd q ! i = NaN"
      if "py_slice nz start_l stop_l = [] \<and> py_slice nz start_r stop_r = []"
    proof -
      have "step_noise q ! i = NaN" unfolding nzq using that by simp
      then show ?thesis using ratio by simp
    qed
    show ?thesis
      using start_l_def stop_l_def stop_r_def start_r_def res_def tn_def S_def sd nzq ratio tn0
        lenres c2 c1 c0 ce
      by blast
  qed
  show ?thesis using run len main by blast
qed

text \<open>
  Two examples on 12 samples with \<open>window = 2\<close>, \<open>window_var = 1\<close>: one step at index 6, and
  two steps at the indices 4 and 7, so close that the ranges of the first one are empty
  and the ranges of the second one hold one sample.
\<close>

definition quality_filter :: FBNLFilterResult where
  "quality_filter = example_filter\<lparr>data := [Fin 0, Fin 1, Fin (-1), Fin 1, Fin (-1), Fin 0, Fin 2, Fin 3, Fin 2, Fin 3, Fin 1, Fin 1]\<rparr>"

definition one_step :: Steps where
  "one_step = \<lparr>indices = [6], direction = [True], bounds = [(5, 8)], number = 1,
     plateaus = [(0, 6), (6, 12)], p_centers = [3, 9], step_sizes = [Fin 2],
     plateau_heights = [Fin 0, Fin 2], dwell_points = []\<rparr>"

definition two_steps :: Steps where
  "two_steps = \<lparr>indices = [4, 7], direction = [True, True], bounds = [(3, 5), (6, 8)], number = 2,
     plateaus = [(0, 4), (4, 7), (7, 12)], p_centers = [2, 6, 10], step_sizes = [Fin 2, Fin 0],
     plateau_heights = [Fin 0, Fin 2, Fin 2], dwell_points = [3]\<rparr>"

lemma quality_filter_fields:
  "window quality_filter = 2" "window_var quality_filter = 1"
  "noise quality_filter =
     [NaN, NaN, Fin 1, Fin 1, Fin 1, Fin 1, Fin 1, Fin 1, Fin 4, Fin 4, NaN, NaN]"
  "data quality_filter = [Fin 0, Fin 1, Fin (-1), Fin 1, Fin (-1), Fin 0, Fin 2, Fin 3, Fin 2, Fin 3, Fin 1, Fin 1]"
  by (simp_all add: quality_filter_def example_filter_def)

lemma quality_ranges_one_step: "quality_ranges 2 2 10 (0, 6) (6, 12) = (3, 4, 8, 9)"
  by (simp add: quality_ranges_def np_round_def Let_def)

lemma quality_ranges_first: "quality_ranges 2 2 10 (0, 4) (4, 7) = (2, 2, 5, 5)"
  by (simp add: quality_ranges_def np_round_def Let_def)

lemma quality_ranges_second: "quality_ranges 2 2 10 (4, 7) (7, 12) = (6, 6, 9, 10)"
  by (simp add: quality_ranges_def np_round_def Let_def)

lemma join_quality_one_step: "join_quality quality_filter ((0, 6), (6, 12)) (Fin 0, Fin 2) = (Fin 1, Fin (5 / 2))"
  apply (simp add: join_quality_def quality_filter_fields quality_ranges_one_step Let_def)
  apply (simp add: residuals_def total_number_def noise_of_def sd_of_def py_slice_def slice_bound_def fmean_def fsub_def)
  done

lemma join_quality_first: "join_quality quality_filter ((0, 4), (4, 7)) (Fin 0, Fin 2) = (Fin 0, NaN)"
  apply (simp add: join_quality_def quality_filter_fields quality_ranges_first Let_def)
  apply (simp add: residuals_def total_number_def noise_of_def sd_of_def py_slice_def slice_bound_def fmean_def fsub_def)
  done

lemma join_quality_second: "join_quality quality_filter ((4, 7), (7, 12)) (Fin 2, Fin 2) = (PInf, Fin 4)"
  apply (simp add: join_quality_def quality_filter_fields quality_ranges_second Let_def)
  apply (simp add: residuals_def total_number_def noise_of_def sd_of_def py_slice_def slice_bound_def fmean_def fsub_def)
  done


lemma np_round_examples:
  "np_round (11 / 2) = 6" "np_round (19 / 2) = 10" "np_round 2 = 2"
  by (simp_all add: np_round_def Let_def)

theorem get_step_qualities_per_step_witness:
  "number two_steps = length (indices two_steps) \<and>
   length (plateaus two_steps) = number two_steps + 1 \<and>
   length (plateau_heights two_steps) = number two_steps + 1 \<and>
   (\<exists>q. get_step_qualities two_steps quality_filter = Inr q \<and>
      length (step_sd q) = 2 \<and>
      step_sd q ! 0 = Fin 0 \<and> step_noise q ! 0 = NaN \<and> step_noise_over_sd q ! 0 = NaN \<and>
      step_sd q ! 1 = PInf \<and> step_noise q ! 1 = Fin 4 \<and> step_noise_over_sd q ! 1 = Fin 0)"
proof -
  have h: "number two_steps = length (indices two_steps)"
    "length (plateaus two_steps) = number two_steps + 1"
    "length (plateau_heights two_steps) = number two_steps + 1"
    by (simp_all add: two_steps_def)
  have v: "number two_steps = 2" "plateaus two_steps = [(0, 4), (4, 7), (7, 12)]"
    "plateau_heights two_steps = [Fin 0, Fin 2, Fin 2]"
    by (simp_all add: two_steps_def)
  have "\<exists>q. get_step_qualities two_steps quality_filter = Inr q \<and>
      length (step_sd q) = 2 \<and>
      step_sd q ! 0 = Fin 0 \<and> step_noise q ! 0 = NaN \<and> step_noise_over_sd q ! 0 = NaN \<and>
      step_sd q ! 1 = PInf \<and> step_noise q ! 1 = Fin 4 \<and> step_noise_over_sd q ! 1 = Fin 0"
    using get_step_qualities_per_step[OF h, of quality_filter]
    apply (elim exE conjE)
    subgoal premises prems for q
    proof -
      have r0: "step_sd q ! 0 = Fin 0 \<and> step_noise q ! 0 = NaN \<and> step_noise_over_sd q ! 0 = NaN"
        using prems(5)[rule_format, of 0]
        apply (simp add: v quality_filter_fields np_round_examples)
        apply (simp add: py_slice_def slice_bound_def fmean_def fsub_def)
        done
      have r1: "step_sd q ! 1 = PInf \<and> step_noise q ! 1 = Fin 4 \<and> step_noise_over_sd q ! 1 = Fin 0"
        using prems(5)[rule_format, of 1]
        apply (simp add: v quality_filter_fields np_round_examples)
        apply (simp add: py_slice_def slice_bound_def fmean_def fsub_def)
        done
      show ?thesis using prems(1,2) r0 r1 by (auto simp: v)
    qed
    done
  then show ?thesis using h by blast
qed

text \<open>
  The claim as stated, with \<open>number - 1\<close> scores and the outer plateaus skipped, fails
  for one step: there is one score, from the only two plateaus, not none.
\<close>

theorem get_step_qualities_one_score_per_step:
  "get_step_qualities one_step quality_filter =
     Inr \<lparr>step_sd = [Fin 1], step_noise = [Fin (5 / 2)], step_noise_over_sd = [Fin (5 / 2)]\<rparr> \<and>
   number one_step - 1 = 0"
  by (simp add: get_step_qualities_def one_step_def join_quality_one_step)

text \<open>
  Empty ranges give the ratio NaN; a single sample, a division by zero, gives an infinite
  \<^verbatim>\<open>step_sd\<close> and the ratio 0.
\<close>

lemma get_step_qualities_two_steps:
  "get_step_qualities two_steps quality_filter =
     Inr \<lparr>step_sd = [Fin 0, PInf], step_noise = [NaN, Fin 4],
           step_noise_over_sd = [NaN, Fin 0]\<rparr>"
  by (simp add: get_step_qualities_def two_steps_def join_quality_first join_quality_second)

end
